theory Spec2Isabelle
  imports Complex_Main "HOL-Library.Multiset" "HOL-Library.Char_ord" "HOL-Library.List_Lexorder"
begin

section \<open>The client retention dashboard (dashboard.py)\<close>

text \<open>
  The repository is one Python script. It loads a table with pandas, computes KPIs, a
  category filter, per-category return rates, a spending segmentation and a per-customer
  prediction. The embedding follows the script top to bottom and keeps its names.

  Conventions of the embedding:
  \<^item> a pandas cell is a number, a string or the missing value \<open>NaN\<close>; booleans are the
    numbers 0 and 1, as pandas treats them in \<open>mean\<close> and \<open>== 1\<close>;
  \<^item> numbers are rationals: every operation the script performs on them is a comparison
    with an integer constant, a sum, a division by a count or a multiplication by 100;
  \<^item> a DataFrame is column-major, as in pandas: the list of its columns in column order,
    each a name with its Series;
  \<^item> an exception is a value \<open>Inl e\<close> of the result;
  \<^item> the widgets of streamlit carry the number they display (a percentage), not the
    text it is formatted to.
\<close>

subsection \<open>Cells, Series, DataFrames\<close>

datatype cell = Num rat | Str string | NaN

type_synonym series = "cell list"

type_synonym dataframe = "(string \<times> series) list"

datatype error =
    KeyError string
  | TypeError
  | ValueError
  | IndexError
  | ModelError string

fun is_Str :: "cell \<Rightarrow> bool" where
  "is_Str (Str s) = True"
| "is_Str c = False"

text \<open>\<open>df.columns\<close>\<close>

definition columns :: "dataframe \<Rightarrow> string list" where
  "columns df = map fst df"

text \<open>\<open>df[c]\<close>: the column named \<open>c\<close>, KeyError when there is none.\<close>

definition getcol :: "dataframe \<Rightarrow> string \<Rightarrow> error + series" where
  "getcol df c = (case map_of df c of None \<Rightarrow> Inl (KeyError c) | Some s \<Rightarrow> Inr s)"

text \<open>\<open>df.shape[0]\<close>: the number of rows.\<close>

definition nrows :: "dataframe \<Rightarrow> nat" where
  "nrows df = (case df of [] \<Rightarrow> 0 | (c, s) # rest \<Rightarrow> length s)"

text \<open>\<open>s[mask]\<close> and \<open>df[mask]\<close>: the rows where the boolean mask holds, in order.\<close>

definition select :: "bool list \<Rightarrow> series \<Rightarrow> series" where
  "select msk s = map fst (filter snd (zip s msk))"

definition filter_rows :: "bool list \<Rightarrow> dataframe \<Rightarrow> dataframe" where
  "filter_rows msk df = map (\<lambda>(c, s). (c, select msk s)) df"

text \<open>\<open>df[c] = s\<close>: replaces the column \<open>c\<close> in place, or appends it as the last column.\<close>

definition setcol :: "dataframe \<Rightarrow> string \<Rightarrow> series \<Rightarrow> dataframe" where
  "setcol df c s =
     (if c \<in> set (columns df)
      then map (\<lambda>(k, v). if k = c then (k, s) else (k, v)) df
      else df @ [(c, s)])"

text \<open>\<open>df[cols]\<close> with a list of names: those columns in the order of the list.\<close>

fun select_cols :: "dataframe \<Rightarrow> string list \<Rightarrow> error + dataframe" where
  "select_cols df [] = Inr []"
| "select_cols df (c # cs) =
     (case getcol df c of
        Inl e \<Rightarrow> Inl e
      | Inr s \<Rightarrow> (case select_cols df cs of Inl e \<Rightarrow> Inl e | Inr r \<Rightarrow> Inr ((c, s) # r)))"

text \<open>\<open>df.iloc[0:1]\<close>: the first row, as a DataFrame of at most one row.\<close>

definition iloc_0_1 :: "dataframe \<Rightarrow> dataframe" where
  "iloc_0_1 df = map (\<lambda>(c, s). (c, take 1 s)) df"

subsection \<open>Series.mean\<close>

fun nums :: "series \<Rightarrow> rat list" where
  "nums [] = []"
| "nums (Num x # s) = x # nums s"
| "nums (c # s) = nums s"

text \<open>
  \<open>Series.mean()\<close> skips missing values; the mean of no value is NaN, not an error;
  a column holding a string cannot be averaged (TypeError).
\<close>

definition mean :: "series \<Rightarrow> error + cell" where
  "mean s =
     (if list_ex is_Str s then Inl TypeError
      else if nums s = [] then Inr NaN
      else Inr (Num (sum_list (nums s) / of_nat (length (nums s)))))"

text \<open>\<open>x * 100\<close> on a float: NaN stays NaN.\<close>

fun times100 :: "cell \<Rightarrow> cell" where
  "times100 (Num x) = Num (x * 100)"
| "times100 c = c"

text \<open>\<open>s.mean() * 100\<close>\<close>

definition mean_percent :: "series \<Rightarrow> error + cell" where
  "mean_percent s = (case mean s of Inl e \<Rightarrow> Inl e | Inr m \<Rightarrow> Inr (times100 m))"

text \<open>\<open>(s == v)\<close> as a Series of booleans, for \<open>mean\<close>.\<close>

definition eq_series :: "series \<Rightarrow> cell \<Rightarrow> series" where
  "eq_series s v = map (\<lambda>c. if c = v then Num 1 else Num 0) s"

subsection \<open>Python strings\<close>

definition startswith :: "string \<Rightarrow> string \<Rightarrow> bool" where
  "startswith s p = (take (length p) s = p)"

text \<open>
  \<open>s.replace(old, new)\<close>: every occurrence of \<open>old\<close>, left to right and without overlap
  (not only a leading one). With an empty \<open>old\<close>, \<open>new\<close> goes between all characters.
\<close>

fun replace_nonempty :: "string \<Rightarrow> string \<Rightarrow> string \<Rightarrow> string" where
  "replace_nonempty old new [] = []"
| "replace_nonempty old new (c # cs) =
     (if take (length old) (c # cs) = old
      then new @ replace_nonempty old new (drop (length old - 1) cs)
      else c # replace_nonempty old new cs)"

definition replace :: "string \<Rightarrow> string \<Rightarrow> string \<Rightarrow> string" where
  "replace s old new =
     (if old = [] then new @ concat (map (\<lambda>c. c # new) s)
      else replace_nonempty old new s)"

subsection \<open>Extract category names (lines 22-23)\<close>

definition category_cols :: "dataframe \<Rightarrow> string list" where
  "category_cols df = filter (\<lambda>c. startswith c ''Category_'') (columns df)"

definition categories :: "dataframe \<Rightarrow> string list" where
  "categories df = map (\<lambda>c. replace c ''Category_'' '''') (category_cols df)"

subsection \<open>KPIs (lines 28-31)\<close>

definition total_customers :: "dataframe \<Rightarrow> nat" where
  "total_customers df = nrows df"

definition overall_return_rate :: "dataframe \<Rightarrow> error + cell" where
  "overall_return_rate df =
     (case getcol df ''Return_Visit'' of Inl e \<Rightarrow> Inl e | Inr s \<Rightarrow> mean_percent s)"

definition avg_spend :: "dataframe \<Rightarrow> error + cell" where
  "avg_spend df =
     (case getcol df ''Purchase_Value'' of Inl e \<Rightarrow> Inl e | Inr s \<Rightarrow> mean s)"

definition email_eng_rate :: "dataframe \<Rightarrow> error + cell" where
  "email_eng_rate df =
     (case getcol df ''Email_Engagement'' of
        Inl e \<Rightarrow> Inl e
      | Inr s \<Rightarrow> mean_percent (eq_series s (Str ''Clicked'')))"

subsection \<open>Category filter (lines 45-53)\<close>



text \<open>
  \<open>filtered_df = df.copy()\<close>, narrowed to the rows whose indicator is 1 unless the
  selection is \<open>All\<close>. Reading the indicator column raises KeyError when the table has
  no column of that name.
\<close>

definition category_filter :: "dataframe \<Rightarrow> string \<Rightarrow> error + dataframe" where
  "category_filter df selected_cat =
     (if selected_cat \<noteq> ''All''
      then (case getcol df (''Category_'' @ selected_cat) of
              Inl e \<Rightarrow> Inl e
            | Inr ind \<Rightarrow> Inr (filter_rows (map (\<lambda>c. c = Num 1) ind) df))
      else Inr df)"

text \<open>The rate written under the filter: \<open>filtered_df['Return_Visit'].mean()*100\<close>.\<close>

definition filtered_return_rate :: "dataframe \<Rightarrow> error + cell" where
  "filtered_return_rate filtered_df =
     (case getcol filtered_df ''Return_Visit'' of Inl e \<Rightarrow> Inl e | Inr s \<Rightarrow> mean_percent s)"

subsection \<open>Return rate by category (lines 63-67)\<close>

text \<open>\<open>df[df[col] == 1]["Return_Visit"].mean()\<close>\<close>

definition cat_rate :: "dataframe \<Rightarrow> string \<Rightarrow> error + cell" where
  "cat_rate df col =
     (case getcol df col of
        Inl e \<Rightarrow> Inl e
      | Inr ind \<Rightarrow>
          (case getcol (filter_rows (map (\<lambda>c. c = Num 1) ind) df) ''Return_Visit'' of
             Inl e \<Rightarrow> Inl e
           | Inr s \<Rightarrow> mean s))"

text \<open>
  A Python dict keeps its keys in insertion order; storing under a key it already has
  replaces the value and keeps the key's place.
\<close>

definition dict_set :: "(string \<times> cell) list \<Rightarrow> string \<Rightarrow> cell \<Rightarrow> (string \<times> cell) list" where
  "dict_set d k v =
     (if k \<in> fst ` set d
      then map (\<lambda>(k', v'). if k' = k then (k', v) else (k', v')) d
      else d @ [(k, v)])"

text \<open>The dict comprehension over \<open>zip(categories, category_cols)\<close>, left to right.\<close>

fun cat_return_loop ::
  "dataframe \<Rightarrow> (string \<times> cell) list \<Rightarrow> (string \<times> string) list \<Rightarrow> error + (string \<times> cell) list"
where
  "cat_return_loop df d [] = Inr d"
| "cat_return_loop df d ((cat, col) # rest) =
     (case cat_rate df col of
        Inl e \<Rightarrow> Inl e
      | Inr v \<Rightarrow> cat_return_loop df (dict_set d cat v) rest)"

definition cat_return :: "dataframe \<Rightarrow> error + (string \<times> cell) list" where
  "cat_return df = cat_return_loop df [] (zip (categories df) (category_cols df))"

text \<open>
  \<open>pd.DataFrame({"Category": categories, "Return_Rate": cat_return.values()})\<close>: its
  rows, a category with its rate. The two columns must have one length (ValueError).
\<close>

definition cat_df :: "dataframe \<Rightarrow> error + (string \<times> cell) list" where
  "cat_df df =
     (case cat_return df of
        Inl e \<Rightarrow> Inl e
      | Inr d \<Rightarrow>
          if length (map snd d) \<noteq> length (categories df) then Inl ValueError
          else Inr (zip (categories df) (map snd d)))"

subsection \<open>Email engagement impact (line 74)\<close>

fun strs :: "series \<Rightarrow> string list" where
  "strs [] = []"
| "strs (Str x # s) = x # strs s"
| "strs (c # s) = strs s"

text \<open>
  The group keys of \<open>groupby\<close>: the distinct values of the column, sorted, numbers before
  strings; rows whose key is missing belong to no group.
\<close>

definition group_keys :: "series \<Rightarrow> cell list" where
  "group_keys s = map Num (sort (remdups (nums s))) @ map Str (sort (remdups (strs s)))"

fun group_means :: "series \<Rightarrow> series \<Rightarrow> cell list \<Rightarrow> error + (cell \<times> cell) list" where
  "group_means by_col val_col [] = Inr []"
| "group_means by_col val_col (k # ks) =
     (case mean (select (map (\<lambda>c. c = k) by_col) val_col) of
        Inl e \<Rightarrow> Inl e
      | Inr m \<Rightarrow> (case group_means by_col val_col ks of Inl e \<Rightarrow> Inl e | Inr r \<Rightarrow> Inr ((k, m) # r)))"

text \<open>\<open>df.groupby(by)[val].mean().reset_index()\<close> over the given group labels.\<close>

definition groupby_mean :: "dataframe \<Rightarrow> string \<Rightarrow> string \<Rightarrow> (series \<Rightarrow> cell list) \<Rightarrow> error + (cell \<times> cell) list" where
  "groupby_mean df by_name val_name keys_of =
     (case getcol df by_name of
        Inl e \<Rightarrow> Inl e
      | Inr b \<Rightarrow>
          (case getcol df val_name of
             Inl e \<Rightarrow> Inl e
           | Inr v \<Rightarrow> if list_ex is_Str v then Inl TypeError else group_means b v (keys_of b)))"

definition email_df :: "dataframe \<Rightarrow> error + (cell \<times> cell) list" where
  "email_df df = groupby_mean df ''Email_Engagement'' ''Return_Visit'' group_keys"

subsection \<open>Automatic insights (lines 84-85)\<close>

fun is_Num :: "cell \<Rightarrow> bool" where
  "is_Num (Num x) = True"
| "is_Num c = False"

text \<open>The rows whose rate is a number, as pairs of the sort key and the category.\<close>

fun keyed :: "(string \<times> cell) list \<Rightarrow> (rat \<times> string) list" where
  "keyed [] = []"
| "keyed ((c, Num r) # rows) = (r, c) # keyed rows"
| "keyed (row # rows) = keyed rows"

text \<open>
  The script passes no \<open>kind\<close> to \<open>sort_values\<close>, so pandas sorts with numpy's
  quicksort. That routine sorts an array of at most 16 elements by insertion, which
  leaves elements of equal key in their order; a longer array it first partitions around
  pivots. The partitioning routine is a parameter here, \<open>big\<close>, of which the properties
  use only that it sorts.
\<close>

definition np_quicksort ::
  "((rat \<times> string) list \<Rightarrow> (rat \<times> string) list) \<Rightarrow> (rat \<times> string) list \<Rightarrow> (rat \<times> string) list"
where
  "np_quicksort big xs = (if length xs \<le> 16 then sort_key fst xs else big xs)"

text \<open>
  \<open>sort_values("Return_Rate", ascending=...)\<close>, on the rows as pairs of key and category.
  As pandas does, the rows without a rate are set aside and placed last in their
  original order (\<open>na_position="last"\<close>), and a descending sort is the ascending sort of
  the reversed rows, reversed.
\<close>

definition sort_values ::
  "((rat \<times> string) list \<Rightarrow> (rat \<times> string) list) \<Rightarrow> bool \<Rightarrow> (string \<times> cell) list \<Rightarrow> (string \<times> cell) list"
where
  "sort_values big ascending rows =
     map (\<lambda>(r, c). (c, Num r))
       (if ascending then np_quicksort big (keyed rows)
        else rev (np_quicksort big (rev (keyed rows))))
     @ filter (\<lambda>row. \<not> is_Num (snd row)) rows"

text \<open>\<open>.iloc[0]\<close>: the first row, IndexError when there is none.\<close>

definition iloc_0 :: "'a list \<Rightarrow> error + 'a" where
  "iloc_0 rows = (case rows of [] \<Rightarrow> Inl IndexError | row # rest \<Rightarrow> Inr row)"

definition top_category ::
  "((rat \<times> string) list \<Rightarrow> (rat \<times> string) list) \<Rightarrow> (string \<times> cell) list \<Rightarrow> error + (string \<times> cell)"
where
  "top_category big rows = iloc_0 (sort_values big False rows)"

definition lowest_category ::
  "((rat \<times> string) list \<Rightarrow> (rat \<times> string) list) \<Rightarrow> (string \<times> cell) list \<Rightarrow> error + (string \<times> cell)"
where
  "lowest_category big rows = iloc_0 (sort_values big True rows)"


subsection \<open>Customer segmentation (lines 104-110)\<close>

text \<open>
  \<open>pd.cut(x, bins, labels)\<close> with its defaults \<open>right=True\<close> and
  \<open>include_lowest=False\<close>: the intervals are open on the left and closed on the
  right, so the label \<open>i\<close> is given to \<open>bins[i] < x \<le> bins[i+1]\<close>, and a value in no
  interval gets NaN.
\<close>

fun cut_label :: "rat list \<Rightarrow> string list \<Rightarrow> rat \<Rightarrow> cell" where
  "cut_label (lo # hi # bs) (l # ls) x =
     (if lo < x \<and> x \<le> hi then Str l else cut_label (hi # bs) ls x)"
| "cut_label bs ls x = NaN"

fun cut_cell :: "rat list \<Rightarrow> string list \<Rightarrow> cell \<Rightarrow> cell" where
  "cut_cell bs ls (Num x) = cut_label bs ls x"
| "cut_cell bs ls c = NaN"

definition pd_cut :: "series \<Rightarrow> rat list \<Rightarrow> string list \<Rightarrow> error + series" where
  "pd_cut s bs ls =
     (if list_ex is_Str s then Inl TypeError
      else if \<not> sorted_wrt (<) bs \<or> length ls + 1 \<noteq> length bs then Inl ValueError
      else Inr (map (cut_cell bs ls) s))"

definition bins :: "rat list" where
  "bins = [0, 80, 150, 300]"

definition labels :: "string list" where
  "labels = [''Low'', ''Medium'', ''High'']"

text \<open>The Segment of one purchase value.\<close>

definition segment_of :: "rat \<Rightarrow> cell" where
  "segment_of x = cut_label bins labels x"

text \<open>
  \<open>df["Segment"] = pd.cut(...)\<close> writes the new column into \<open>df\<close> itself; the result
  is the table after the assignment.
\<close>

definition assign_segment :: "dataframe \<Rightarrow> error + dataframe" where
  "assign_segment df =
     (case getcol df ''Purchase_Value'' of
        Inl e \<Rightarrow> Inl e
      | Inr pv \<Rightarrow>
          (case pd_cut pv bins labels of
             Inl e \<Rightarrow> Inl e
           | Inr seg_col \<Rightarrow> Inr (setcol df ''Segment'' seg_col)))"

text \<open>
  \<open>seg = df.groupby("Segment")["Return_Visit"].mean()\<close>. The Segment column is
  categorical, and the groups are its three categories in the order of \<open>labels\<close>,
  observed in the data or not (pandas's default before version 3).
\<close>

definition seg :: "dataframe \<Rightarrow> error + (cell \<times> cell) list" where
  "seg df = groupby_mean df ''Segment'' ''Return_Visit'' (\<lambda>b. map Str labels)"

subsection \<open>Prediction tool (lines 122-138)\<close>

datatype widget = Success rat | Info string

record prediction =
  rendered :: "widget list"
  model_calls :: "dataframe list"

definition feature_cols :: "string list \<Rightarrow> string list" where
  "feature_cols cat_cols =
     [''Purchase_Value'', ''Email_Engagement'', ''Discount_Used'',
      ''frequency'', ''total_spent'', ''avg_spent'', ''recency_days'',
      ''purchase_month'', ''purchase_dayofweek''] @ cat_cols"

text \<open>
  The tool takes the classifier as a parameter (\<open>model.predict_proba(inputs)[0][1]\<close>, a
  probability or an exception of the classifier), the list \<open>category_cols\<close> that line 22
  computed, the table and the text typed by the user. It returns what it renders
  (\<open>st.success\<close> shows \<open>pred*100\<close>) and the inputs of every call of the classifier. An
  empty text is false in Python, and \<open>and\<close> does not evaluate its right operand then.
\<close>

definition prediction_tool ::
  "(dataframe \<Rightarrow> error + rat) \<Rightarrow> string list \<Rightarrow> dataframe \<Rightarrow> string \<Rightarrow> error + prediction"
where
  "prediction_tool model cat_cols df cust_id =
     (if cust_id = [] then Inr \<lparr>rendered = [], model_calls = []\<rparr>
      else
        (case getcol df ''Customer_ID'' of
           Inl e \<Rightarrow> Inl e
         | Inr ids \<Rightarrow>
             if Str cust_id \<notin> set ids then Inr \<lparr>rendered = [], model_calls = []\<rparr>
             else
               (let row = iloc_0_1 (filter_rows (map (\<lambda>c. c = Str cust_id) ids) df) in
                case select_cols row (feature_cols cat_cols) of
                  Inl e \<Rightarrow> Inl e
                | Inr inputs \<Rightarrow>
                    (case model inputs of
                       Inl e \<Rightarrow> Inl e
                     | Inr pred \<Rightarrow>
                         Inr \<lparr>rendered =
                                [Success (pred * 100),
                                 Info ''Use this prediction to plan targeted retention campaigns.''],
                              model_calls = [inputs]\<rparr>))))"

subsection \<open>The sections of the script as steps on the table\<close>

text \<open>
  Each section of the script reads the global \<open>df\<close>; a step returns the table as the
  section leaves it, with the section's result or its exception.
\<close>

definition kpi_section :: "dataframe \<Rightarrow> dataframe \<times> (error + nat \<times> cell \<times> cell \<times> cell)" where
  "kpi_section df =
     (df,
      case overall_return_rate df of
        Inl e \<Rightarrow> Inl e
      | Inr r \<Rightarrow>
          (case avg_spend df of
             Inl e \<Rightarrow> Inl e
           | Inr a \<Rightarrow>
               (case email_eng_rate df of
                  Inl e \<Rightarrow> Inl e
                | Inr m \<Rightarrow> Inr (total_customers df, r, a, m))))"

definition filter_section :: "dataframe \<Rightarrow> string \<Rightarrow> dataframe \<times> (error + dataframe \<times> cell)" where
  "filter_section df selected_cat =
     (df,
      case category_filter df selected_cat of
        Inl e \<Rightarrow> Inl e
      | Inr filtered_df \<Rightarrow>
          (case filtered_return_rate filtered_df of
             Inl e \<Rightarrow> Inl e
           | Inr r \<Rightarrow> Inr (filtered_df, r)))"

definition category_section :: "dataframe \<Rightarrow> dataframe \<times> (error + (string \<times> cell) list)" where
  "category_section df = (df, cat_df df)"

definition email_section :: "dataframe \<Rightarrow> dataframe \<times> (error + (cell \<times> cell) list)" where
  "email_section df = (df, email_df df)"

definition insights_section ::
  "((rat \<times> string) list \<Rightarrow> (rat \<times> string) list) \<Rightarrow> dataframe
     \<Rightarrow> dataframe \<times> (error + (string \<times> cell) \<times> (string \<times> cell))"
where
  "insights_section big df =
     (df,
      case cat_df df of
        Inl e \<Rightarrow> Inl e
      | Inr rows \<Rightarrow>
          (case top_category big rows of
             Inl e \<Rightarrow> Inl e
           | Inr t \<Rightarrow>
               (case lowest_category big rows of
                  Inl e \<Rightarrow> Inl e
                | Inr l \<Rightarrow> Inr (t, l))))"

definition segment_section :: "dataframe \<Rightarrow> dataframe \<times> (error + (cell \<times> cell) list)" where
  "segment_section df =
     (case assign_segment df of
        Inl e \<Rightarrow> (df, Inl e)
      | Inr df' \<Rightarrow> (df', seg df'))"

subsection \<open>Vocabulary of the properties\<close>

text \<open>The position of the first cell of a Series equal to \<open>k\<close> (its length if there is none).\<close>

fun first_match :: "cell \<Rightarrow> series \<Rightarrow> nat" where
  "first_match k [] = 0"
| "first_match k (c # cs) = (if c = k then 0 else Suc (first_match k cs))"

text \<open>The cell of column \<open>c\<close> in row \<open>i\<close>.\<close>

definition cell_at :: "dataframe \<Rightarrow> string \<Rightarrow> nat \<Rightarrow> cell" where
  "cell_at df c i = (case getcol df c of Inl e \<Rightarrow> NaN | Inr s \<Rightarrow> s ! i)"

text \<open>Some row of the table has the indicator column \<open>col\<close> equal to 1.\<close>

definition has_members :: "dataframe \<Rightarrow> string \<Rightarrow> bool" where
  "has_members df col = (case getcol df col of Inl e \<Rightarrow> False | Inr ind \<Rightarrow> Num 1 \<in> set ind)"

subsection \<open>Example tables\<close>

text \<open>
  Three loaded rows with every column the script reads; the customer C1 occurs twice.
\<close>

definition example_df :: dataframe where
  "example_df =
     [(''Customer_ID'', [Str ''C1'', Str ''C2'', Str ''C1'']),
      (''Purchase_Value'', [Num 40, Num 120, Num 200]),
      (''Email_Engagement'', [Str ''Clicked'', Str ''Opened'', Str ''None'']),
      (''Discount_Used'', [Num 1, Num 0, Num 1]),
      (''Return_Visit'', [Num 1, Num 0, Num 1]),
      (''frequency'', [Num 2, Num 1, Num 2]),
      (''total_spent'', [Num 240, Num 120, Num 240]),
      (''avg_spent'', [Num 120, Num 120, Num 120]),
      (''recency_days'', [Num 30, Num 12, Num 3]),
      (''purchase_month'', [Num 1, Num 2, Num 3]),
      (''purchase_dayofweek'', [Num 0, Num 4, Num 6]),
      (''Category_Hair'', [Num 1, Num 0, Num 0]),
      (''Category_Nails'', [Num 0, Num 1, Num 1])]"

text \<open>A table of two rows with a category, Spa, that no row belongs to.\<close>

definition spa_df :: dataframe where
  "spa_df =
     [(''Return_Visit'', [Num 1, Num 0]),
      (''Category_Hair'', [Num 1, Num 1]),
      (''Category_Spa'', [Num 0, Num 0])]"



section \<open>Properties\<close>

subsection \<open>Reading and writing columns\<close>

lemma map_of_replace:
  "map_of (map (\<lambda>(k, v). if k = c then (k, s) else (k, v)) df) c' =
     map_option (\<lambda>v. if c' = c then s else v) (map_of df c')"
  by (induction df) (simp_all add: case_prod_beta)

lemma map_of_append_new:
  assumes "c \<notin> fst ` set df"
  shows "map_of (df @ [(c, s)]) c' = (if c' = c then Some s else map_of df c')"
proof -
  from assms have n: "map_of df c = None"
    by (simp add: map_of_eq_None_iff)
  show ?thesis
    using n by (auto simp: map_add_def split: option.splits)
qed

lemma map_of_setcol:
  "map_of (setcol df c s) c' = (if c' = c then Some s else map_of df c')"
proof -
  consider (old) "c \<in> fst ` set df" | (new) "c \<notin> fst ` set df"
    by blast
  then show ?thesis
  proof cases
    case old
    then obtain v where "map_of df c = Some v"
      by (metis map_of_eq_None_iff not_None_eq)
    with old show ?thesis
      by (auto simp: setcol_def columns_def map_of_replace map_option_case split: option.splits)
  next
    case new
    then show ?thesis
      using map_of_append_new [OF new, of s c'] by (simp add: setcol_def columns_def)
  qed
qed

lemma getcol_setcol:
  "getcol (setcol df c s) c' = (if c' = c then Inr s else getcol df c')"
  by (simp add: getcol_def map_of_setcol)


subsection \<open>Segmentation\<close>

lemma segment_of_cases:
  "segment_of x =
     (if 0 < x \<and> x \<le> 80 then Str ''Low''
      else if 80 < x \<and> x \<le> 150 then Str ''Medium''
      else if 150 < x \<and> x \<le> 300 then Str ''High''
      else NaN)"
  by (simp add: segment_of_def bins_def labels_def)

lemma cut_cell_segment:
  "cut_cell bins labels c = (case c of Num x \<Rightarrow> segment_of x | Str s \<Rightarrow> NaN | NaN \<Rightarrow> NaN)"
  by (cases c) (simp_all add: segment_of_def)

lemma assign_segment_Inr:
  assumes "assign_segment df = Inr df'"
  shows "\<exists>pv. getcol df ''Purchase_Value'' = Inr pv
            \<and> df' = setcol df ''Segment'' (map (cut_cell bins labels) pv)"
proof -
  from assms obtain pv sc where pv: "getcol df ''Purchase_Value'' = Inr pv"
    and sc: "pd_cut pv bins labels = Inr sc" and df': "df' = setcol df ''Segment'' sc"
    by (auto simp: assign_segment_def split: sum.splits)
  from sc have "sc = map (cut_cell bins labels) pv"
    by (simp add: pd_cut_def split: if_splits)
  with pv df' show ?thesis by simp
qed

text \<open>
  C1 (as the code has it). \<open>pd.cut\<close> is called with its defaults, so the three ranges
  are open on the left and closed on the right: a purchase value in (0,80] is Low, one in
  (80,150] is Medium, one in (150,300] is High, and every other value has no segment. In
  particular 0 has no segment, 80 is Low and 300 is High. Every row's Segment cell is the
  segment of that row's purchase value (a missing purchase value has no segment).
\<close>

theorem segment_assignment:
  assumes "assign_segment df = Inr df'"
  shows "\<exists>pv. getcol df ''Purchase_Value'' = Inr pv
           \<and> getcol df' ''Segment'' =
               Inr (map (\<lambda>c. case c of Num x \<Rightarrow> segment_of x | Str s \<Rightarrow> NaN | NaN \<Rightarrow> NaN) pv)
           \<and> (\<forall>x. segment_of x =
                 (if 0 < x \<and> x \<le> 80 then Str ''Low''
                  else if 80 < x \<and> x \<le> 150 then Str ''Medium''
                  else if 150 < x \<and> x \<le> 300 then Str ''High''
                  else NaN))
           \<and> segment_of 0 = NaN \<and> segment_of 80 = Str ''Low'' \<and> segment_of 300 = Str ''High''"
proof -
  from assign_segment_Inr [OF assms] obtain pv where pv: "getcol df ''Purchase_Value'' = Inr pv"
    and df': "df' = setcol df ''Segment'' (map (cut_cell bins labels) pv)"
    by blast
  have m: "map (cut_cell bins labels) pv =
      map (\<lambda>c. case c of Num x \<Rightarrow> segment_of x | Str s \<Rightarrow> NaN | NaN \<Rightarrow> NaN) pv"
    by (simp add: cut_cell_segment)
  have g: "getcol df' ''Segment'' =
      Inr (map (\<lambda>c. case c of Num x \<Rightarrow> segment_of x | Str s \<Rightarrow> NaN | NaN \<Rightarrow> NaN) pv)"
    unfolding df' getcol_setcol m by simp
  have c: "\<forall>x. segment_of x =
                 (if 0 < x \<and> x \<le> 80 then Str ''Low''
                  else if 80 < x \<and> x \<le> 150 then Str ''Medium''
                  else if 150 < x \<and> x \<le> 300 then Str ''High''
                  else NaN)"
    using segment_of_cases by blast
  have e: "segment_of 0 = NaN \<and> segment_of 80 = Str ''Low'' \<and> segment_of 300 = Str ''High''"
    by (simp add: segment_of_def bins_def labels_def)
  from pv g c e show ?thesis by blast
qed

text \<open>The theorem at a table with the purchase values 0, 80, 150, 300 and 301.\<close>

theorem segment_assignment_witness:
  "assign_segment [(''Purchase_Value'', [Num 0, Num 80, Num 150, Num 300, Num 301])]
     = Inr [(''Purchase_Value'', [Num 0, Num 80, Num 150, Num 300, Num 301]),
            (''Segment'', [NaN, Str ''Low'', Str ''Medium'', Str ''High'', NaN])]
   \<and> getcol [(''Purchase_Value'', [Num 0, Num 80, Num 150, Num 300, Num 301]),
            (''Segment'', [NaN, Str ''Low'', Str ''Medium'', Str ''High'', NaN])] ''Segment''
     = Inr (map (\<lambda>c. case c of Num x \<Rightarrow> segment_of x | Str s \<Rightarrow> NaN | NaN \<Rightarrow> NaN)
              [Num 0, Num 80, Num 150, Num 300, Num 301])"
proof -
  have a: "assign_segment [(''Purchase_Value'', [Num 0, Num 80, Num 150, Num 300, Num 301])]
     = Inr [(''Purchase_Value'', [Num 0, Num 80, Num 150, Num 300, Num 301]),
            (''Segment'', [NaN, Str ''Low'', Str ''Medium'', Str ''High'', NaN])]"
    by (simp add: assign_segment_def getcol_def pd_cut_def bins_def labels_def setcol_def columns_def)
  from segment_assignment [OF a] obtain pv where
    "getcol [(''Purchase_Value'', [Num 0, Num 80, Num 150, Num 300, Num 301])] ''Purchase_Value'' = Inr pv"
    and g: "getcol [(''Purchase_Value'', [Num 0, Num 80, Num 150, Num 300, Num 301]),
            (''Segment'', [NaN, Str ''Low'', Str ''Medium'', Str ''High'', NaN])] ''Segment''
      = Inr (map (\<lambda>c. case c of Num x \<Rightarrow> segment_of x | Str s \<Rightarrow> NaN | NaN \<Rightarrow> NaN) pv)"
    by blast
  then have "pv = [Num 0, Num 80, Num 150, Num 300, Num 301]"
    by (simp add: getcol_def)
  with a g show ?thesis by blast
qed

text \<open>
  C1 as stated (half-open ranges closed on the left) fails at each of its three examples:
  0 is not Low, 80 is not Medium, and 300 does get a segment.
\<close>

theorem segment_half_open_counterexample:
  "segment_of 0 \<noteq> Str ''Low'' \<and> segment_of 80 \<noteq> Str ''Medium'' \<and> segment_of 300 \<noteq> NaN"
  by (simp add: segment_of_def bins_def labels_def)

subsection \<open>Overall return rate\<close>

lemma binary_series:
  assumes "\<forall>c\<in>set rv. c = Num 0 \<or> c = Num 1"
  shows "\<not> list_ex is_Str rv \<and> length (nums rv) = length rv
           \<and> 0 \<le> sum_list (nums rv) \<and> sum_list (nums rv) \<le> of_nat (length rv)"
  using assms by (induction rv) auto

text \<open>
  C9 (as the code has it). \<open>overall_return_rate\<close> is the mean of Return_Visit
  multiplied by 100, a percentage: for every non-empty table whose Return_Visit cells are
  0 or 1 it is 100 times the mean of Return_Visit over all rows and lies in [0,100]. For
  the three rows 1, 0, 1 it is 200/3, which is 66.667 to three decimals.
\<close>

theorem overall_return_rate_percent:
  assumes "getcol df ''Return_Visit'' = Inr rv"
    and "rv \<noteq> []"
    and "\<forall>c\<in>set rv. c = Num 0 \<or> c = Num 1"
  shows "overall_return_rate df = Inr (Num (sum_list (nums rv) / of_nat (length rv) * 100))
       \<and> 0 \<le> sum_list (nums rv) / of_nat (length rv) * 100
       \<and> sum_list (nums rv) / of_nat (length rv) * 100 \<le> 100
       \<and> overall_return_rate [(''Return_Visit'', [Num 1, Num 0, Num 1])] = Inr (Num (200 / 3))
       \<and> 66667 / 1000 - 1 / 2000 \<le> (200 / 3 :: rat) \<and> (200 / 3 :: rat) < 66667 / 1000 + 1 / 2000"
proof -
  from binary_series [OF assms(3)] have s: "\<not> list_ex is_Str rv"
    and l: "length (nums rv) = length rv"
    and lo: "0 \<le> sum_list (nums rv)" and hi: "sum_list (nums rv) \<le> of_nat (length rv)"
    by blast+
  from assms(2) l have ne: "nums rv \<noteq> []" by auto
  have pos: "(0::rat) < of_nat (length rv)" using assms(2) by simp
  have r: "overall_return_rate df = Inr (Num (sum_list (nums rv) / of_nat (length rv) * 100))"
    using assms(1) s ne l by (simp add: overall_return_rate_def mean_percent_def mean_def)
  have b0: "0 \<le> sum_list (nums rv) / of_nat (length rv) * 100"
    using lo pos by simp
  have b1: "sum_list (nums rv) / of_nat (length rv) * 100 \<le> 100"
    using hi pos by (simp add: field_simps)
  have ex: "overall_return_rate [(''Return_Visit'', [Num 1, Num 0, Num 1])] = Inr (Num (200 / 3))"
    by (simp add: overall_return_rate_def getcol_def mean_percent_def mean_def)
  have num: "66667 / 1000 - 1 / 2000 \<le> (200 / 3 :: rat) \<and> (200 / 3 :: rat) < 66667 / 1000 + 1 / 2000"
    by simp
  from r b0 b1 ex num show ?thesis by blast
qed

text \<open>The theorem at the four rows 1, 1, 0, 1: the rate is 75.\<close>

theorem overall_return_rate_percent_witness:
  "overall_return_rate [(''Return_Visit'', [Num 1, Num 1, Num 0, Num 1])] = Inr (Num 75)"
proof -
  have g: "getcol [(''Return_Visit'', [Num 1, Num 1, Num 0, Num 1])] ''Return_Visit''
             = Inr [Num 1, Num 1, Num 0, Num 1]"
    by (simp add: getcol_def)
  have n: "[Num 1, Num 1, Num 0, Num 1] \<noteq> []" by simp
  have b: "\<forall>c\<in>set [Num 1, Num 1, Num 0, Num 1]. c = Num 0 \<or> c = Num 1" by simp
  from overall_return_rate_percent [OF g n b] show ?thesis by simp
qed

text \<open>
  C9 as stated (a value in [0,1], 0.667 for the rows 1, 0, 1) fails: for those rows the
  script computes 200/3, which is above 1.
\<close>

theorem overall_return_rate_unit_counterexample:
  "overall_return_rate [(''Return_Visit'', [Num 1, Num 0, Num 1])] = Inr (Num (200 / 3))
   \<and> \<not> (200 / 3 :: rat) \<le> 1"
  by (simp add: overall_return_rate_def getcol_def mean_percent_def mean_def)

subsection \<open>Category filter\<close>

text \<open>
  C7. Filtering with the sentinel \<open>All\<close> gives the full table: the view is the table
  itself, so it has the same row count, the rate written for it equals
  \<open>overall_return_rate\<close>, and the base table is as before.
\<close>

theorem filter_all:
  "\<exists>view. category_filter df ''All'' = Inr view \<and> view = df \<and> nrows view = nrows df
      \<and> filtered_return_rate view = overall_return_rate df
      \<and> fst (filter_section df ''All'') = df"
  by (simp add: category_filter_def filtered_return_rate_def overall_return_rate_def
      filter_section_def)

text \<open>The theorem at a table of two rows.\<close>

theorem filter_all_witness:
  "category_filter [(''Return_Visit'', [Num 1, Num 0]), (''Category_Hair'', [Num 0, Num 1])] ''All''
     = Inr [(''Return_Visit'', [Num 1, Num 0]), (''Category_Hair'', [Num 0, Num 1])]
   \<and> filtered_return_rate [(''Return_Visit'', [Num 1, Num 0]), (''Category_Hair'', [Num 0, Num 1])]
     = Inr (Num 50)"
proof -
  have o: "overall_return_rate [(''Return_Visit'', [Num 1, Num 0]), (''Category_Hair'', [Num 0, Num 1])]
     = Inr (Num 50)"
    by (simp add: overall_return_rate_def getcol_def mean_percent_def mean_def)
  from filter_all [of "[(''Return_Visit'', [Num 1, Num 0]), (''Category_Hair'', [Num 0, Num 1])]"]
  show ?thesis unfolding o by simp
qed

subsection \<open>Prediction tool\<close>

text \<open>
  C10. For the empty customer identifier the lookup is short-circuited: whatever the
  table is (also one without a Customer_ID column, where the membership test would
  raise), the classifier is not called and nothing is rendered.
\<close>

theorem empty_id_short_circuit:
  "prediction_tool model cat_cols df '''' = Inr \<lparr>rendered = [], model_calls = []\<rparr>"
  by (simp add: prediction_tool_def)

text \<open>
  The theorem at a table with no column: the empty text renders nothing, while a
  non-empty text reaches the membership test, which raises there.
\<close>

theorem empty_id_short_circuit_witness:
  "prediction_tool (\<lambda>inputs. Inr 1) [] [] '''' = Inr \<lparr>rendered = [], model_calls = []\<rparr>
   \<and> prediction_tool (\<lambda>inputs. Inr 1) [] [] ''C1'' = Inl (KeyError ''Customer_ID'')"
  using empty_id_short_circuit [of "\<lambda>inputs. Inr 1" "[]" "[]"]
  by (simp add: prediction_tool_def getcol_def)

text \<open>
  C5 (as the code has it). For every customer identifier with no matching row the
  classifier is never called and nothing is rendered: no probability, and no
  not-found indicator either, since the \<open>if\<close> has no \<open>else\<close> branch.
\<close>

theorem unknown_id_renders_nothing:
  assumes "getcol df ''Customer_ID'' = Inr ids"
    and "Str cust_id \<notin> set ids"
  shows "prediction_tool model cat_cols df cust_id = Inr \<lparr>rendered = [], model_calls = []\<rparr>"
  using assms by (simp add: prediction_tool_def)

text \<open>The theorem at a table with the customers C1 and C2 and the typed text C9.\<close>

theorem unknown_id_renders_nothing_witness:
  "prediction_tool (\<lambda>inputs. Inr (4 / 5)) [] [(''Customer_ID'', [Str ''C1'', Str ''C2''])] ''C9''
     = Inr \<lparr>rendered = [], model_calls = []\<rparr>"
proof -
  have g: "getcol [(''Customer_ID'', [Str ''C1'', Str ''C2''])] ''Customer_ID'' = Inr [Str ''C1'', Str ''C2'']"
    by (simp add: getcol_def)
  have n: "Str ''C9'' \<notin> set [Str ''C1'', Str ''C2'']" by simp
  from unknown_id_renders_nothing [OF g n] show ?thesis .
qed

text \<open>
  C5 as stated fails where it promises a rendered not-found indicator: for an unknown
  customer the list of rendered widgets is empty.
\<close>

theorem no_not_found_indicator_counterexample:
  "prediction_tool (\<lambda>inputs. Inr (1 / 2)) [''Category_Hair'']
     [(''Customer_ID'', [Str ''A17'']), (''Category_Hair'', [Num 1])] ''B42''
     = Inr \<lparr>rendered = [], model_calls = []\<rparr>"
  by (simp add: prediction_tool_def getcol_def)

subsection \<open>The names the filter receives\<close>



lemma getcol_present:
  assumes "c \<in> set (columns df)"
  shows "\<exists>s. getcol df c = Inr s"
proof -
  from assms have "map_of df c \<noteq> None"
    by (simp add: columns_def map_of_eq_None_iff)
  then show ?thesis by (auto simp: getcol_def)
qed





subsection \<open>Prediction for a known customer\<close>

lemma getcol_filter_rows:
  "getcol (filter_rows msk df) c =
     (case getcol df c of Inl e \<Rightarrow> Inl e | Inr s \<Rightarrow> Inr (select msk s))"
  by (simp add: getcol_def filter_rows_def map_of_map split: option.splits)

lemma getcol_iloc_0_1:
  "getcol (iloc_0_1 df) c =
     (case getcol df c of Inl e \<Rightarrow> Inl e | Inr s \<Rightarrow> Inr (take 1 s))"
  by (simp add: getcol_def iloc_0_1_def map_of_map split: option.splits)

lemma first_match_props:
  "k \<in> set ids \<Longrightarrow>
     first_match k ids < length ids \<and> ids ! first_match k ids = k
     \<and> (\<forall>j<first_match k ids. ids ! j \<noteq> k)"
proof (induction ids)
  case Nil
  then show ?case by simp
next
  case (Cons c cs)
  then show ?case
    by (auto simp: nth_Cons split: nat.splits)
qed

lemma take1_select_first:
  "k \<in> set ids \<Longrightarrow> length s = length ids \<Longrightarrow>
     take 1 (select (map (\<lambda>c. c = k) ids) s) = [s ! first_match k ids]"
proof (induction ids arbitrary: s)
  case Nil
  then show ?case by simp
next
  case (Cons c cs)
  then obtain x xs where s: "s = x # xs" by (cases s) auto
  with Cons show ?case
    by (auto simp: select_def)
qed

lemma select_cols_all:
  "\<forall>c\<in>set cs. getcol df c = Inr (f c) \<Longrightarrow> select_cols df cs = Inr (map (\<lambda>c. (c, f c)) cs)"
  by (induction cs) simp_all


text \<open>
  C6. For every non-empty customer identifier that matches a row (in a table that has the
  feature columns, each as long as the Customer_ID column), the tool takes the first
  matching row in load order, builds the one-row inputs with the nine named columns in
  the order of the script followed by the \<open>Category_\<close> columns in the order of the loaded
  table \<open>df0\<close>, and calls the classifier once, on exactly these inputs; it renders the
  classifier's probability, or fails with the classifier's exception.
\<close>

theorem prediction_first_match:
  assumes "cust_id \<noteq> []"
    and "getcol df ''Customer_ID'' = Inr ids"
    and "Str cust_id \<in> set ids"
    and "\<forall>c\<in>set (feature_cols (category_cols df0)). \<exists>s. getcol df c = Inr s \<and> length s = length ids"
  shows "\<exists>i inputs.
           i < length ids \<and> ids ! i = Str cust_id \<and> (\<forall>j<i. ids ! j \<noteq> Str cust_id)
         \<and> inputs = map (\<lambda>c. (c, [cell_at df c i]))
              ([''Purchase_Value'', ''Email_Engagement'', ''Discount_Used'',
                ''frequency'', ''total_spent'', ''avg_spent'', ''recency_days'',
                ''purchase_month'', ''purchase_dayofweek'']
               @ filter (\<lambda>c. startswith c ''Category_'') (columns df0))
         \<and> prediction_tool model (category_cols df0) df cust_id =
             (case model inputs of
                Inl e \<Rightarrow> Inl e
              | Inr pred \<Rightarrow>
                  Inr \<lparr>rendered =
                         [Success (pred * 100),
                          Info ''Use this prediction to plan targeted retention campaigns.''],
                       model_calls = [inputs]\<rparr>)"
proof -
  define i where "i = first_match (Str cust_id) ids"
  define row where "row = iloc_0_1 (filter_rows (map (\<lambda>c. c = Str cust_id) ids) df)"
  define inputs where "inputs = map (\<lambda>c. (c, [cell_at df c i])) (feature_cols (category_cols df0))"
  from first_match_props [OF assms(3)]
  have i: "i < length ids \<and> ids ! i = Str cust_id \<and> (\<forall>j<i. ids ! j \<noteq> Str cust_id)"
    unfolding i_def .
  have col: "getcol row c = Inr [cell_at df c i]" if c: "c \<in> set (feature_cols (category_cols df0))" for c
  proof -
    from assms(4) c obtain s where s: "getcol df c = Inr s" and l: "length s = length ids"
      by blast
    from take1_select_first [OF assms(3) l]
    have "take 1 (select (map (\<lambda>c. c = Str cust_id) ids) s) = [s ! i]"
      unfolding i_def .
    then show ?thesis
      unfolding row_def by (simp add: getcol_iloc_0_1 getcol_filter_rows s cell_at_def)
  qed
  then have "\<forall>c\<in>set (feature_cols (category_cols df0)). getcol row c = Inr [cell_at df c i]"
    by blast
  from select_cols_all [of "feature_cols (category_cols df0)" row "\<lambda>c. [cell_at df c i]", OF this]
  have sel: "select_cols row (feature_cols (category_cols df0)) = Inr inputs"
    unfolding inputs_def .
  have run: "prediction_tool model (category_cols df0) df cust_id =
             (case model inputs of
                Inl e \<Rightarrow> Inl e
              | Inr pred \<Rightarrow>
                  Inr \<lparr>rendered =
                         [Success (pred * 100),
                          Info ''Use this prediction to plan targeted retention campaigns.''],
                       model_calls = [inputs]\<rparr>)"
    unfolding prediction_tool_def using assms(1,2,3) sel
    by (simp add: row_def [symmetric] Let_def)
  have sch: "inputs = map (\<lambda>c. (c, [cell_at df c i]))
              ([''Purchase_Value'', ''Email_Engagement'', ''Discount_Used'',
                ''frequency'', ''total_spent'', ''avg_spent'', ''recency_days'',
                ''purchase_month'', ''purchase_dayofweek'']
               @ filter (\<lambda>c. startswith c ''Category_'') (columns df0))"
    unfolding inputs_def feature_cols_def category_cols_def ..
  from i sch run show ?thesis by blast
qed


text \<open>The segmentation of the small table.\<close>

lemma segment_example:
  "segment_section example_df =
     (example_df @ [(''Segment'', [Str ''Low'', Str ''Medium'', Str ''High''])],
      Inr [(Str ''Low'', Num 1), (Str ''Medium'', Num 0), (Str ''High'', Num 1)])"
  by (simp add: segment_section_def assign_segment_def example_df_def getcol_def pd_cut_def
      bins_def labels_def setcol_def columns_def seg_def groupby_mean_def select_def mean_def)

lemma category_cols_example:
  "category_cols example_df = [''Category_Hair'', ''Category_Nails'']"
  by (simp add: category_cols_def columns_def example_df_def startswith_def)

text \<open>
  The theorem at the small table after segmentation, for the customer C1 of rows 0 and 2
  and a classifier that answers 0.8: the inputs are the cells of row 0.
\<close>

theorem prediction_first_match_witness:
  "prediction_tool (\<lambda>inputs. Inr (4 / 5)) (category_cols example_df)
       (fst (segment_section example_df)) ''C1''
     = Inr \<lparr>rendered =
              [Success 80,
               Info ''Use this prediction to plan targeted retention campaigns.''],
            model_calls =
              [[(''Purchase_Value'', [Num 40]), (''Email_Engagement'', [Str ''Clicked'']),
                (''Discount_Used'', [Num 1]), (''frequency'', [Num 2]),
                (''total_spent'', [Num 240]), (''avg_spent'', [Num 120]),
                (''recency_days'', [Num 30]), (''purchase_month'', [Num 1]),
                (''purchase_dayofweek'', [Num 0]), (''Category_Hair'', [Num 1]),
                (''Category_Nails'', [Num 0])]]\<rparr>"
proof -
  define df where "df = fst (segment_section example_df)"
  have df: "df = example_df @ [(''Segment'', [Str ''Low'', Str ''Medium'', Str ''High''])]"
    unfolding df_def segment_example by simp
  have h1: "''C1'' \<noteq> []" by simp
  have h2: "getcol df ''Customer_ID'' = Inr [Str ''C1'', Str ''C2'', Str ''C1'']"
    unfolding df by (simp add: getcol_def example_df_def)
  have h3: "Str ''C1'' \<in> set [Str ''C1'', Str ''C2'', Str ''C1'']" by simp
  have h4: "\<forall>c\<in>set (feature_cols (category_cols example_df)).
              \<exists>s. getcol df c = Inr s \<and> length s = length [Str ''C1'', Str ''C2'', Str ''C1'']"
    unfolding df category_cols_example by (simp add: feature_cols_def getcol_def example_df_def)
  from prediction_first_match [OF h1 h2 h3 h4, of "\<lambda>inputs. Inr (4 / 5)"]
  obtain i inputs where i: "i < length [Str ''C1'', Str ''C2'', Str ''C1'']"
    and first: "\<forall>j<i. [Str ''C1'', Str ''C2'', Str ''C1''] ! j \<noteq> Str ''C1''"
    and inputs: "inputs = map (\<lambda>c. (c, [cell_at df c i]))
              ([''Purchase_Value'', ''Email_Engagement'', ''Discount_Used'',
                ''frequency'', ''total_spent'', ''avg_spent'', ''recency_days'',
                ''purchase_month'', ''purchase_dayofweek'']
               @ filter (\<lambda>c. startswith c ''Category_'') (columns example_df))"
    and run: "prediction_tool (\<lambda>inputs. Inr (4 / 5)) (category_cols example_df) df ''C1'' =
             Inr \<lparr>rendered =
                    [Success 80,
                     Info ''Use this prediction to plan targeted retention campaigns.''],
                  model_calls = [inputs]\<rparr>"
    by auto
  have "i = 0"
  proof (rule ccontr)
    assume "i \<noteq> 0"
    then have "0 < i" by simp
    with first have "[Str ''C1'', Str ''C2'', Str ''C1''] ! 0 \<noteq> Str ''C1''" by blast
    then show False by simp
  qed
  then have "inputs =
      [(''Purchase_Value'', [Num 40]), (''Email_Engagement'', [Str ''Clicked'']),
       (''Discount_Used'', [Num 1]), (''frequency'', [Num 2]),
       (''total_spent'', [Num 240]), (''avg_spent'', [Num 120]),
       (''recency_days'', [Num 30]), (''purchase_month'', [Num 1]),
       (''purchase_dayofweek'', [Num 0]), (''Category_Hair'', [Num 1]),
       (''Category_Nails'', [Num 0])]"
    unfolding inputs df
    by (simp add: cell_at_def getcol_def example_df_def columns_def startswith_def)
  with run show ?thesis unfolding df_def by simp
qed

subsection \<open>The table before and after each section\<close>

lemma columns_setcol:
  "columns (setcol df c s) = (if c \<in> set (columns df) then columns df else columns df @ [c])"
proof -
  have "map fst (map (\<lambda>(k, v). if k = c then (k, s) else (k, v)) df) = map fst df"
    by (induction df) (simp_all add: case_prod_beta)
  then show ?thesis
    by (simp add: setcol_def columns_def)
qed

lemma replace_twice:
  "map (\<lambda>(k, v). if k = c then (k, s) else (k, v)) (map (\<lambda>(k, v). if k = c then (k, s) else (k, v)) df)
     = map (\<lambda>(k, v). if k = c then (k, s) else (k, v)) df"
  by (induction df) (simp_all add: case_prod_beta)

lemma replace_absent:
  "c \<notin> fst ` set df \<Longrightarrow> map (\<lambda>(k, v). if k = c then (k, s) else (k, v)) df = df"
  by (rule map_idI) (auto simp: case_prod_beta)

lemma setcol_twice:
  "setcol (setcol df c s) c s = setcol df c s"
proof -
  define f :: "string \<times> series \<Rightarrow> string \<times> series"
    where "f = (\<lambda>(k, v). if k = c then (k, s) else (k, v))"
  have set: "setcol d c s = (if c \<in> set (columns d) then map f d else d @ [(c, s)])" for d
    unfolding f_def setcol_def ..
  have twice: "map f (map f df) = map f df"
    unfolding f_def by (rule replace_twice)
  have in': "c \<in> set (columns (setcol df c s))"
    by (simp add: columns_setcol)
  have "setcol (setcol df c s) c s = map f (setcol df c s)"
    using in' by (simp only: set [of "setcol df c s"] if_True)
  also have "\<dots> = setcol df c s"
  proof -
    consider (old) "c \<in> set (columns df)" | (new) "c \<notin> set (columns df)"
      by blast
    then show ?thesis
    proof cases
      case old
      then have "setcol df c s = map f df"
        by (simp only: set [of df] if_True)
      then show ?thesis
        by (simp only: twice)
    next
      case new
      then have e: "setcol df c s = df @ [(c, s)]"
        by (simp only: set [of df] if_False)
      from new have "c \<notin> fst ` set df"
        by (simp add: columns_def)
      then have "map f df = df"
        unfolding f_def by (rule replace_absent)
      then show ?thesis
        unfolding e by (simp add: f_def)
    qed
  qed
  finally show ?thesis .
qed

lemma assign_segment_twice:
  assumes "assign_segment df = Inr df'"
  shows "assign_segment df' = Inr df'"
proof -
  from assign_segment_Inr [OF assms] obtain pv where pv: "getcol df ''Purchase_Value'' = Inr pv"
    and df': "df' = setcol df ''Segment'' (map (cut_cell bins labels) pv)"
    by blast
  from assms pv have cut: "pd_cut pv bins labels = Inr (map (cut_cell bins labels) pv)"
    by (auto simp: assign_segment_def pd_cut_def split: sum.splits if_splits)
  have "getcol df' ''Purchase_Value'' = Inr pv"
    unfolding df' getcol_setcol using pv by simp
  then show ?thesis
    unfolding assign_segment_def using cut by (simp add: df' setcol_twice)
qed

lemma segment_section_twice:
  "segment_section (fst (segment_section df)) = segment_section df"
proof -
  consider (fail) e where "assign_segment df = Inl e" | (ok) df' where "assign_segment df = Inr df'"
    by (rule sum.exhaust)
  then show ?thesis
  proof cases
    case fail
    then show ?thesis by (simp add: segment_section_def)
  next
    case ok
    from assign_segment_twice [OF ok] ok show ?thesis
      by (simp add: segment_section_def)
  qed
qed

lemma segment_section_other_columns:
  assumes "c \<noteq> ''Segment''"
  shows "getcol (fst (segment_section df)) c = getcol df c"
proof -
  consider (fail) e where "assign_segment df = Inl e" | (ok) df' where "assign_segment df = Inr df'"
    by (rule sum.exhaust)
  then show ?thesis
  proof cases
    case fail
    then show ?thesis by (simp add: segment_section_def)
  next
    case ok
    from assign_segment_Inr [OF ok] obtain pv where
      "df' = setcol df ''Segment'' (map (cut_cell bins labels) pv)"
      by blast
    with ok assms show ?thesis
      by (simp add: segment_section_def getcol_setcol)
  qed
qed

lemma segment_section_columns:
  "columns (fst (segment_section df)) =
     (case assign_segment df of
        Inl e \<Rightarrow> columns df
      | Inr df' \<Rightarrow> if ''Segment'' \<in> set (columns df) then columns df else columns df @ [''Segment''])"
proof -
  consider (fail) e where "assign_segment df = Inl e" | (ok) df' where "assign_segment df = Inr df'"
    by (rule sum.exhaust)
  then show ?thesis
  proof cases
    case fail
    then show ?thesis by (simp add: segment_section_def)
  next
    case ok
    from assign_segment_Inr [OF ok] obtain pv where
      "df' = setcol df ''Segment'' (map (cut_cell bins labels) pv)"
      by blast
    with ok show ?thesis
      by (simp add: segment_section_def columns_setcol)
  qed
qed

text \<open>
  C2 (as the code has it). The KPI, filter, category, email and insight sections leave
  the table as it was. The segmentation does not: it writes the derived column
  \<open>Segment\<close> into the table (as a new last column, or over a column of that name),
  leaving every other column as it was. Every section is a function of the table, and
  running the segmentation again on the table it produced gives the same table and the
  same result.
\<close>

theorem aggregations_frame:
  "fst (kpi_section df) = df
   \<and> fst (filter_section df selected_cat) = df
   \<and> fst (category_section df) = df
   \<and> fst (email_section df) = df
   \<and> fst (insights_section big df) = df
   \<and> (\<forall>c. c \<noteq> ''Segment'' \<longrightarrow> getcol (fst (segment_section df)) c = getcol df c)
   \<and> columns (fst (segment_section df)) =
       (case assign_segment df of
          Inl e \<Rightarrow> columns df
        | Inr df' \<Rightarrow> if ''Segment'' \<in> set (columns df) then columns df else columns df @ [''Segment''])
   \<and> segment_section (fst (segment_section df)) = segment_section df"
proof -
  have a: "fst (kpi_section df) = df" by (simp add: kpi_section_def)
  have b: "fst (filter_section df selected_cat) = df" by (simp add: filter_section_def)
  have c: "fst (category_section df) = df" by (simp add: category_section_def)
  have d: "fst (email_section df) = df" by (simp add: email_section_def)
  have e: "fst (insights_section big df) = df" by (simp add: insights_section_def)
  have f: "\<forall>c. c \<noteq> ''Segment'' \<longrightarrow> getcol (fst (segment_section df)) c = getcol df c"
    using segment_section_other_columns by blast
  from a b c d e f segment_section_columns [of df] segment_section_twice [of df]
  show ?thesis by blast
qed

text \<open>
  The theorem at the small table: the segmentation appends the Segment column, keeps the
  Return_Visit column, and gives the same result when run on the table it produced.
\<close>

theorem aggregations_frame_witness:
  "fst (kpi_section example_df) = example_df
   \<and> getcol (example_df @ [(''Segment'', [Str ''Low'', Str ''Medium'', Str ''High''])]) ''Return_Visit''
       = getcol example_df ''Return_Visit''
   \<and> segment_section (example_df @ [(''Segment'', [Str ''Low'', Str ''Medium'', Str ''High''])])
       = segment_section example_df"
proof -
  have n: "''Return_Visit'' \<noteq> ''Segment''" by simp
  from aggregations_frame [of example_df "''All''" "sort_key fst"] n
  show ?thesis unfolding segment_example by simp
qed

text \<open>
  C2 as stated fails for the segmentation: after it the table of the script has one more
  column than before.
\<close>

theorem segmentation_changes_table_counterexample:
  "fst (segment_section example_df)
     = example_df @ [(''Segment'', [Str ''Low'', Str ''Medium'', Str ''High''])]
   \<and> fst (segment_section example_df) \<noteq> example_df
   \<and> length (columns (fst (segment_section example_df))) = Suc (length (columns example_df))"
  unfolding segment_example by (simp add: columns_def)

subsection \<open>Return rates of empty categories\<close>

lemma select_subset: "set (select msk s) \<subseteq> set s"
proof
  fix x assume "x \<in> set (select msk s)"
  then obtain b where "(x, b) \<in> set (zip s msk)"
    by (auto simp: select_def)
  then show "x \<in> set s" by (rule set_zip_leftD)
qed

lemma select_none:
  assumes "Num 1 \<notin> set ind"
  shows "select (map (\<lambda>c. c = Num 1) ind) s = []"
proof -
  have "\<not> snd p" if "p \<in> set (zip s (map (\<lambda>c. c = Num 1) ind))" for p
  proof -
    obtain x b where p: "p = (x, b)" by (cases p)
    with that have "b \<in> set (map (\<lambda>c. c = Num 1) ind)"
      by (auto dest: set_zip_rightD)
    with assms p show ?thesis by auto
  qed
  then have "filter snd (zip s (map (\<lambda>c. c = Num 1) ind)) = []"
    by (simp add: filter_empty_conv)
  then show ?thesis by (simp add: select_def)
qed

lemma mean_numeric:
  assumes "\<not> list_ex is_Str s"
  shows "\<exists>v. mean s = Inr v"
  using assms by (simp add: mean_def)

lemma cat_rate_numeric:
  assumes rv: "getcol df ''Return_Visit'' = Inr rv" and num: "\<not> list_ex is_Str rv"
    and col: "col \<in> set (columns df)"
  shows "\<exists>v. cat_rate df col = Inr v \<and> (\<not> has_members df col \<longrightarrow> v = NaN)"
proof -
  from getcol_present [OF col] obtain ind where ind: "getcol df col = Inr ind"
    by blast
  define sel where "sel = select (map (\<lambda>c. c = Num 1) ind) rv"
  have rate: "cat_rate df col = mean sel"
    by (simp add: cat_rate_def ind getcol_filter_rows rv sel_def)
  from select_subset [of "map (\<lambda>c. c = Num 1) ind" rv] num have "\<not> list_ex is_Str sel"
    unfolding sel_def by (auto simp: list_ex_iff)
  from mean_numeric [OF this] obtain v where v: "mean sel = Inr v"
    by blast
  have "v = NaN" if "\<not> has_members df col"
  proof -
    from that ind have "Num 1 \<notin> set ind"
      by (simp add: has_members_def)
    from select_none [OF this] have "sel = []"
      unfolding sel_def .
    with v show ?thesis by (simp add: mean_def)
  qed
  with rate v show ?thesis by simp
qed

lemma keys_dict_set: "fst ` set (dict_set d k v) = insert k (fst ` set d)"
proof -
  have "map fst (map (\<lambda>(k', v'). if k' = k then (k', v) else (k', v')) d) = map fst d"
    by (induction d) (simp_all add: case_prod_beta)
  then have "fst ` set (map (\<lambda>(k', v'). if k' = k then (k', v) else (k', v')) d) = fst ` set d"
    by (metis set_map)
  then show ?thesis
    by (auto simp: dict_set_def)
qed

lemma map_of_dict_set:
  "map_of (dict_set d k v) k' = (if k' = k then Some v else map_of d k')"
proof -
  consider (old) "k \<in> fst ` set d" | (new) "k \<notin> fst ` set d"
    by blast
  then show ?thesis
  proof cases
    case old
    then obtain w where "map_of d k = Some w"
      by (metis map_of_eq_None_iff not_None_eq)
    with old show ?thesis
      by (auto simp: dict_set_def map_of_replace map_option_case split: option.splits)
  next
    case new
    then show ?thesis
      using map_of_append_new [OF new, of v k'] by (simp add: dict_set_def)
  qed
qed


lemma cat_return_loop_props:
  assumes "\<forall>(cat, col)\<in>set kvs. \<exists>v. cat_rate df col = Inr v \<and> (\<not> has_members df col \<longrightarrow> v = NaN)"
  shows "\<exists>d'. cat_return_loop df d kvs = Inr d'
           \<and> fst ` set d' = fst ` set d \<union> fst ` set kvs
           \<and> (\<forall>cat. cat \<in> fst ` set kvs
                  \<and> (\<forall>(cat', col)\<in>set kvs. cat' = cat \<longrightarrow> \<not> has_members df col)
                \<longrightarrow> map_of d' cat = Some NaN)
           \<and> (\<forall>cat. cat \<notin> fst ` set kvs \<longrightarrow> map_of d' cat = map_of d cat)"
  using assms
proof (induction kvs arbitrary: d)
  case Nil
  then show ?case by simp
next
  case (Cons kv kvs)
  obtain cat0 col0 where kv: "kv = (cat0, col0)" by (cases kv)
  from Cons.prems kv obtain v0 where v0: "cat_rate df col0 = Inr v0"
    and nan0: "\<not> has_members df col0 \<longrightarrow> v0 = NaN"
    by auto
  from Cons.prems have rest: "\<forall>(cat, col)\<in>set kvs. \<exists>v. cat_rate df col = Inr v \<and> (\<not> has_members df col \<longrightarrow> v = NaN)"
    by simp
  from Cons.IH [OF rest, of "dict_set d cat0 v0"] obtain d' where
    all: "cat_return_loop df (dict_set d cat0 v0) kvs = Inr d'
      \<and> fst ` set d' = fst ` set (dict_set d cat0 v0) \<union> fst ` set kvs
      \<and> (\<forall>cat. cat \<in> fst ` set kvs
                  \<and> (\<forall>(cat', col)\<in>set kvs. cat' = cat \<longrightarrow> \<not> has_members df col)
                \<longrightarrow> map_of d' cat = Some NaN)
      \<and> (\<forall>cat. cat \<notin> fst ` set kvs \<longrightarrow> map_of d' cat = map_of (dict_set d cat0 v0) cat)"
    ..
  from all have run: "cat_return_loop df (dict_set d cat0 v0) kvs = Inr d'"
    by (rule conjunct1)
  from all have keys: "fst ` set d' = fst ` set (dict_set d cat0 v0) \<union> fst ` set kvs"
    by (elim conjE)
  from all have nan: "\<forall>cat. cat \<in> fst ` set kvs
                  \<and> (\<forall>(cat', col)\<in>set kvs. cat' = cat \<longrightarrow> \<not> has_members df col)
                \<longrightarrow> map_of d' cat = Some NaN"
    by (elim conjE)
  from all have other: "\<forall>cat. cat \<notin> fst ` set kvs \<longrightarrow> map_of d' cat = map_of (dict_set d cat0 v0) cat"
    by (elim conjE)
  have r: "cat_return_loop df d (kv # kvs) = Inr d'"
    by (simp add: kv v0 run)
  have k: "fst ` set d' = fst ` set d \<union> fst ` set (kv # kvs)"
    using keys by (auto simp: keys_dict_set kv)
  have n: "map_of d' cat = Some NaN"
    if in_keys: "cat \<in> fst ` set (kv # kvs)"
      and empty: "\<forall>(cat', col)\<in>set (kv # kvs). cat' = cat \<longrightarrow> \<not> has_members df col" for cat
  proof -
    from empty have empty_rest: "\<forall>(cat', col)\<in>set kvs. cat' = cat \<longrightarrow> \<not> has_members df col"
      by simp
    consider (later) "cat \<in> fst ` set kvs" | (here) "cat \<notin> fst ` set kvs"
      by blast
    then show ?thesis
    proof cases
      case later
      with nan empty_rest show ?thesis by blast
    next
      case here
      with in_keys kv have c: "cat = cat0" by auto
      with empty kv have "\<not> has_members df col0" by simp
      with nan0 have "v0 = NaN" by simp
      with other here c show ?thesis
        by (simp add: map_of_dict_set)
    qed
  qed
  have o: "map_of d' cat = map_of d cat" if "cat \<notin> fst ` set (kv # kvs)" for cat
  proof -
    from that kv have "cat \<notin> fst ` set kvs" and "cat \<noteq> cat0" by auto
    with other show ?thesis by (simp add: map_of_dict_set)
  qed
  show ?case
  proof (intro exI conjI allI impI)
    show "cat_return_loop df d (kv # kvs) = Inr d'" by (rule r)
    show "fst ` set d' = fst ` set d \<union> fst ` set (kv # kvs)" by (rule k)
    show "map_of d' cat = Some NaN"
      if "cat \<in> fst ` set (kv # kvs)
          \<and> (\<forall>(cat', col)\<in>set (kv # kvs). cat' = cat \<longrightarrow> \<not> has_members df col)" for cat
      using that n [of cat] by (elim conjE)
    show "map_of d' cat = map_of d cat" if "cat \<notin> fst ` set (kv # kvs)" for cat
      using that by (rule o)
  qed
qed

lemma zip_categories:
  "fst ` set (zip (categories df) (category_cols df)) = set (categories df)
   \<and> snd ` set (zip (categories df) (category_cols df)) \<subseteq> set (columns df)"
proof -
  have l: "length (categories df) = length (category_cols df)"
    by (simp add: categories_def)
  have "map fst (zip (categories df) (category_cols df)) = categories df"
    using l by simp
  then have a: "fst ` set (zip (categories df) (category_cols df)) = set (categories df)"
    by (metis set_map)
  have "map snd (zip (categories df) (category_cols df)) = category_cols df"
    using l by simp
  then have "snd ` set (zip (categories df) (category_cols df)) = set (category_cols df)"
    by (metis set_map)
  then have b: "snd ` set (zip (categories df) (category_cols df)) \<subseteq> set (columns df)"
    by (auto simp: category_cols_def)
  from a b show ?thesis by blast
qed

text \<open>
  C3 (as the code has it). On a table with a numeric Return_Visit column the empty-data
  conditions raise nothing, but they do not degrade to zero: \<open>cat_return\<close> has exactly the
  categories as keys, and a category whose indicator columns match no row is reported
  with the missing value NaN (not 0, and with no flag); the rate written for a filtered
  view with no row is NaN as well.
\<close>

theorem empty_category_is_nan:
  assumes "getcol df ''Return_Visit'' = Inr rv" and "\<not> list_ex is_Str rv"
  shows "\<exists>d. cat_return df = Inr d
           \<and> fst ` set d = set (categories df)
           \<and> (\<forall>cat. cat \<in> set (categories df)
                  \<and> (\<forall>(cat', col)\<in>set (zip (categories df) (category_cols df)).
                        cat' = cat \<longrightarrow> \<not> has_members df col)
                \<longrightarrow> map_of d cat = Some NaN)
           \<and> (\<forall>view. getcol view ''Return_Visit'' = Inr [] \<longrightarrow> filtered_return_rate view = Inr NaN)"
proof -
  define kvs where "kvs = zip (categories df) (category_cols df)"
  from zip_categories [of df] have keys: "fst ` set kvs = set (categories df)"
    and cols: "snd ` set kvs \<subseteq> set (columns df)"
    unfolding kvs_def by blast+
  have "\<exists>v. cat_rate df col = Inr v \<and> (\<not> has_members df col \<longrightarrow> v = NaN)"
    if "(cat, col) \<in> set kvs" for cat col
  proof -
    from that cols have "col \<in> set (columns df)" by force
    from cat_rate_numeric [OF assms this] show ?thesis .
  qed
  then have "\<forall>(cat, col)\<in>set kvs. \<exists>v. cat_rate df col = Inr v \<and> (\<not> has_members df col \<longrightarrow> v = NaN)"
    by blast
  from cat_return_loop_props [OF this, of "[]"] obtain d where
    all: "cat_return_loop df [] kvs = Inr d
      \<and> fst ` set d = fst ` set ([] :: (string \<times> cell) list) \<union> fst ` set kvs
      \<and> (\<forall>cat. cat \<in> fst ` set kvs
                  \<and> (\<forall>(cat', col)\<in>set kvs. cat' = cat \<longrightarrow> \<not> has_members df col)
                \<longrightarrow> map_of d cat = Some NaN)
      \<and> (\<forall>cat. cat \<notin> fst ` set kvs \<longrightarrow> map_of d cat = map_of ([] :: (string \<times> cell) list) cat)"
    ..
  from all have run: "cat_return_loop df [] kvs = Inr d"
    by (rule conjunct1)
  from all have k: "fst ` set d = fst ` set ([] :: (string \<times> cell) list) \<union> fst ` set kvs"
    by (elim conjE)
  from all have n: "\<forall>cat. cat \<in> fst ` set kvs
                  \<and> (\<forall>(cat', col)\<in>set kvs. cat' = cat \<longrightarrow> \<not> has_members df col)
                \<longrightarrow> map_of d cat = Some NaN"
    by (elim conjE)
  have r: "cat_return df = Inr d"
    unfolding cat_return_def using run unfolding kvs_def .
  have k': "fst ` set d = set (categories df)"
    using k keys by simp
  have n': "\<forall>cat. cat \<in> set (categories df)
                  \<and> (\<forall>(cat', col)\<in>set (zip (categories df) (category_cols df)).
                        cat' = cat \<longrightarrow> \<not> has_members df col)
                \<longrightarrow> map_of d cat = Some NaN"
    using n unfolding keys unfolding kvs_def .
  have v: "\<forall>view. getcol view ''Return_Visit'' = Inr [] \<longrightarrow> filtered_return_rate view = Inr NaN"
    by (simp add: filtered_return_rate_def mean_percent_def mean_def)
  show ?thesis
  proof (intro exI conjI)
    show "cat_return df = Inr d" by (rule r)
    show "fst ` set d = set (categories df)" by (rule k')
    show "\<forall>cat. cat \<in> set (categories df)
                  \<and> (\<forall>(cat', col)\<in>set (zip (categories df) (category_cols df)).
                        cat' = cat \<longrightarrow> \<not> has_members df col)
                \<longrightarrow> map_of d cat = Some NaN" by (rule n')
    show "\<forall>view. getcol view ''Return_Visit'' = Inr [] \<longrightarrow> filtered_return_rate view = Inr NaN"
      by (rule v)
  qed
qed


lemma spa_categories:
  "category_cols spa_df = [''Category_Hair'', ''Category_Spa'']
   \<and> categories spa_df = [''Hair'', ''Spa'']"
  by (simp add: categories_def category_cols_def columns_def spa_df_def startswith_def replace_def)

text \<open>The theorem at the table with the empty category Spa.\<close>

theorem empty_category_is_nan_witness:
  "\<exists>d. cat_return spa_df = Inr d \<and> fst ` set d = {''Hair'', ''Spa''} \<and> map_of d ''Spa'' = Some NaN"
proof -
  have rv: "getcol spa_df ''Return_Visit'' = Inr [Num 1, Num 0]"
    by (simp add: getcol_def spa_df_def)
  have num: "\<not> list_ex is_Str [Num 1, Num 0]" by simp
  have spa: "''Spa'' \<in> set (categories spa_df)
              \<and> (\<forall>(cat', col)\<in>set (zip (categories spa_df) (category_cols spa_df)).
                    cat' = ''Spa'' \<longrightarrow> \<not> has_members spa_df col)"
    by (simp add: spa_categories) (simp add: has_members_def getcol_def spa_df_def)
  from empty_category_is_nan [OF rv num] obtain d where r: "cat_return spa_df = Inr d"
    and k: "fst ` set d = set (categories spa_df)"
    and n: "\<forall>cat. cat \<in> set (categories spa_df)
                  \<and> (\<forall>(cat', col)\<in>set (zip (categories spa_df) (category_cols spa_df)).
                        cat' = cat \<longrightarrow> \<not> has_members spa_df col)
                \<longrightarrow> map_of d cat = Some NaN"
    by (elim exE conjE)
  from n spa have "map_of d ''Spa'' = Some NaN" by (elim allE impE)
  moreover from k have "fst ` set d = {''Hair'', ''Spa''}"
    by (simp add: spa_categories)
  ultimately show ?thesis using r by blast
qed

text \<open>
  C3 as stated fails: the category Spa, with no matching row, is reported with NaN and
  not with 0, and the rate of the empty view filtered by Spa is NaN as well.
\<close>

theorem empty_category_not_zero_counterexample:
  "cat_return spa_df = Inr [(''Hair'', Num (1 / 2)), (''Spa'', NaN)]
   \<and> cat_df spa_df = Inr [(''Hair'', Num (1 / 2)), (''Spa'', NaN)]
   \<and> snd (filter_section spa_df ''Spa'')
       = Inr ([(''Return_Visit'', []), (''Category_Hair'', []), (''Category_Spa'', [])], NaN)"
proof -
  have hair: "cat_rate spa_df ''Category_Hair'' = Inr (Num (1 / 2))"
    by (simp add: cat_rate_def getcol_def spa_df_def filter_rows_def select_def mean_def)
  have spa: "cat_rate spa_df ''Category_Spa'' = Inr NaN"
    by (simp add: cat_rate_def getcol_def spa_df_def filter_rows_def select_def mean_def)
  have r: "cat_return spa_df = Inr [(''Hair'', Num (1 / 2)), (''Spa'', NaN)]"
    by (simp add: cat_return_def spa_categories hair spa dict_set_def)
  have d: "cat_df spa_df = Inr [(''Hair'', Num (1 / 2)), (''Spa'', NaN)]"
    by (simp add: cat_df_def r spa_categories)
  have f: "snd (filter_section spa_df ''Spa'')
       = Inr ([(''Return_Visit'', []), (''Category_Hair'', []), (''Category_Spa'', [])], NaN)"
    by (simp add: filter_section_def category_filter_def filtered_return_rate_def mean_percent_def
        getcol_def spa_df_def filter_rows_def select_def mean_def)
  from r d f show ?thesis by simp
qed

subsection \<open>Highest and lowest category\<close>

lemma filter_keeps_hd:
  "xs \<noteq> [] \<Longrightarrow> P (hd xs) \<Longrightarrow> hd (filter P xs) = hd xs"
  by (cases xs) auto






















end
